theory Spec2Isabelle
  imports Main "HOL-Library.Sublist"
begin

section \<open>Python strings\<close>

text \<open>
  A Python \<open>str\<close> is a sequence of Unicode code points; the checker looks for Cyrillic
  letters, which do not fit into an 8-bit \<open>char\<close>, so a string is a list of code points.
  Identifiers and the ASCII literals of the source are written through \<open>ascii\<close>.
\<close>

type_synonym ustring = "nat list"

definition ascii :: "string \<Rightarrow> ustring" where
  "ascii s = map of_char s"

text \<open>\<open>s.startswith(p)\<close>, \<open>s.endswith(p)\<close> and \<open>p in s\<close> on strings.\<close>

definition startswith :: "ustring \<Rightarrow> ustring \<Rightarrow> bool" where
  "startswith s p = prefix p s"

definition endswith :: "ustring \<Rightarrow> ustring \<Rightarrow> bool" where
  "endswith s p = suffix p s"

definition contains :: "ustring \<Rightarrow> ustring \<Rightarrow> bool" where
  "contains s p = sublist p s"

text \<open>
  \<open>str.isspace\<close> for one code point: the characters \<open>str.strip()\<close> removes when it is
  called without an argument.
\<close>

definition py_isspace :: "nat \<Rightarrow> bool" where
  "py_isspace c =
     ((9 \<le> c \<and> c \<le> 13) \<or> (28 \<le> c \<and> c \<le> 32) \<or> c = 133 \<or> c = 160 \<or> c = 5760
      \<or> (8192 \<le> c \<and> c \<le> 8202) \<or> c = 8232 \<or> c = 8233 \<or> c = 8239 \<or> c = 8287
      \<or> c = 12288)"

definition strip :: "ustring \<Rightarrow> ustring" where
  "strip s = rev (dropWhile py_isspace (rev (dropWhile py_isspace s)))"

text \<open>\<open>s.split(sep)\<close> for a one-character separator: never an empty result.\<close>

fun split :: "ustring \<Rightarrow> nat \<Rightarrow> ustring list" where
  "split [] sep = [[]]"
| "split (c # cs) sep =
     (if c = sep then [] # split cs sep
      else (case split cs sep of
              [] \<Rightarrow> [[c]]
            | r # rs \<Rightarrow> (c # r) # rs))"

section \<open>Content predicates of the module\<close>

text \<open>
  \<open>is_number\<close> calls the builtin \<open>float\<close> and turns its \<open>ValueError\<close> into \<open>False\<close>.
  The grammar \<open>float\<close> accepts is not part of the repository: \<open>float_parses text\<close> tells
  whether \<open>float(text)\<close> returns.
\<close>

definition is_number :: "(ustring \<Rightarrow> bool) \<Rightarrow> ustring \<Rightarrow> bool" where
  "is_number float_parses text = (if float_parses text then True else False)"

text \<open>
  \<open>re.search('[\<dots>]', obj)\<close> with the two ranges U+0430..U+044F and U+0410..U+042F:
  some character of the string lies in one of them.
\<close>

definition cyrillic_char :: "nat \<Rightarrow> bool" where
  "cyrillic_char c = ((1072 \<le> c \<and> c \<le> 1103) \<or> (1040 \<le> c \<and> c \<le> 1071))"

definition is_comment_in_sql :: "ustring \<Rightarrow> bool" where
  "is_comment_in_sql obj =
     (let rows = split obj 10;
          rows = map strip rows
      in list_ex (\<lambda>i. startswith i (ascii ''--'')) rows)"

section \<open>The syntax tree\<close>

text \<open>
  Nodes are objects compared by identity, so a node is named by its address and the tree
  is a store from addresses to nodes. Each node has its \<open>parent\<close> link (\<open>None\<close> at the
  root) and the fields of its class. The classes are those the checker tests with
  \<open>isinstance\<close> or reads through; \<open>Other\<close> stands for every other class, of which the
  checker reads at most the attribute \<open>name\<close> (present on definitions and assignment
  names, and on list, tuple and set displays, which answer with the name of their
  builtin class; absent elsewhere). A \<open>Delete\<close> statement has \<open>targets\<close> only. The
  number held by a float or complex constant is not needed and is left out.
\<close>

type_synonym node_id = nat

datatype const_value =
    PyStr ustring
  | PyBytes "nat list"
  | PyInt int
  | PyBool bool
  | PyNone
  | PyFloat
  | PyComplex
  | PyEllipsis

datatype node_kind =
    Const const_value
  | Name ustring
  | Attribute node_id ustring
  | Call node_id "node_id list" "node_id list"
  | Dict "(node_id \<times> node_id) list"
  | Index node_id
  | Assign "node_id list" node_id
  | Delete "node_id list"
  | Keyword "ustring option" node_id
  | Compare node_id "(ustring \<times> node_id) list"
  | Other "ustring option"

record node =
  parent :: "node_id option"
  kind :: node_kind

type_synonym tree = "node_id \<Rightarrow> node"

text \<open>The value of an attribute is a node or a constant.\<close>

datatype pyobj = Ref node_id | Val const_value

datatype exn = AttributeError | IndexError

subsection \<open>Attribute access\<close>

text \<open>Reading an attribute the class does not have raises \<open>AttributeError\<close>.\<close>

fun attr_value :: "node_kind \<Rightarrow> exn + pyobj" where
  "attr_value (Const v) = Inr (Val v)"
| "attr_value (Index v) = Inr (Ref v)"
| "attr_value (Assign targets v) = Inr (Ref v)"
| "attr_value (Keyword arg v) = Inr (Ref v)"
| "attr_value _ = Inl AttributeError"

text \<open>
  A constant and a dictionary display pass the attributes they do not have themselves
  on to the class of their value, so their \<open>name\<close> is the name of that builtin class.
\<close>

fun class_name :: "const_value \<Rightarrow> ustring" where
  "class_name (PyStr s) = ascii ''str''"
| "class_name (PyBytes b) = ascii ''bytes''"
| "class_name (PyInt i) = ascii ''int''"
| "class_name (PyBool b) = ascii ''bool''"
| "class_name PyNone = ascii ''NoneType''"
| "class_name PyFloat = ascii ''float''"
| "class_name PyComplex = ascii ''complex''"
| "class_name PyEllipsis = ascii ''ellipsis''"

fun attr_name :: "node_kind \<Rightarrow> exn + ustring" where
  "attr_name (Name n) = Inr n"
| "attr_name (Other (Some n)) = Inr n"
| "attr_name (Const v) = Inr (class_name v)"
| "attr_name (Dict items) = Inr (ascii ''dict'')"
| "attr_name _ = Inl AttributeError"

fun attr_attrname :: "node_kind \<Rightarrow> exn + ustring" where
  "attr_attrname (Attribute expr attrname) = Inr attrname"
| "attr_attrname _ = Inl AttributeError"

fun attr_expr :: "node_kind \<Rightarrow> exn + node_id" where
  "attr_expr (Attribute expr attrname) = Inr expr"
| "attr_expr _ = Inl AttributeError"

fun attr_func :: "node_kind \<Rightarrow> exn + node_id" where
  "attr_func (Call func args keywords) = Inr func"
| "attr_func _ = Inl AttributeError"

fun attr_args :: "node_kind \<Rightarrow> exn + node_id list" where
  "attr_args (Call func args keywords) = Inr args"
| "attr_args _ = Inl AttributeError"

fun attr_items :: "node_kind \<Rightarrow> exn + (node_id \<times> node_id) list" where
  "attr_items (Dict items) = Inr items"
| "attr_items _ = Inl AttributeError"

fun attr_targets :: "node_kind \<Rightarrow> exn + node_id list" where
  "attr_targets (Assign targets v) = Inr targets"
| "attr_targets (Delete targets) = Inr targets"
| "attr_targets _ = Inl AttributeError"

fun attr_arg :: "node_kind \<Rightarrow> exn + ustring option" where
  "attr_arg (Keyword arg v) = Inr arg"
| "attr_arg _ = Inl AttributeError"

fun attr_left :: "node_kind \<Rightarrow> exn + node_id" where
  "attr_left (Compare left ops) = Inr left"
| "attr_left _ = Inl AttributeError"

fun attr_ops :: "node_kind \<Rightarrow> exn + (ustring \<times> node_id) list" where
  "attr_ops (Compare left ops) = Inr ops"
| "attr_ops _ = Inl AttributeError"

text \<open>Sequencing of a computation that may raise.\<close>

fun and_then :: "exn + 'a \<Rightarrow> ('a \<Rightarrow> exn + 'b) \<Rightarrow> exn + 'b" where
  "and_then (Inl e) f = Inl e"
| "and_then (Inr x) f = f x"

subsection \<open>\<open>isinstance\<close>\<close>

fun is_Call :: "node_kind \<Rightarrow> bool" where
  "is_Call (Call func args keywords) = True"
| "is_Call _ = False"

fun is_Dict :: "node_kind \<Rightarrow> bool" where
  "is_Dict (Dict items) = True"
| "is_Dict _ = False"

fun is_Index :: "node_kind \<Rightarrow> bool" where
  "is_Index (Index v) = True"
| "is_Index _ = False"

fun is_Assign :: "node_kind \<Rightarrow> bool" where
  "is_Assign (Assign targets v) = True"
| "is_Assign _ = False"

fun is_Delete :: "node_kind \<Rightarrow> bool" where
  "is_Delete (Delete targets) = True"
| "is_Delete _ = False"

fun is_Keyword :: "node_kind \<Rightarrow> bool" where
  "is_Keyword (Keyword arg v) = True"
| "is_Keyword _ = False"

fun is_Compare :: "node_kind \<Rightarrow> bool" where
  "is_Compare (Compare left ops) = True"
| "is_Compare _ = False"

fun is_Attribute :: "node_kind \<Rightarrow> bool" where
  "is_Attribute (Attribute expr attrname) = True"
| "is_Attribute _ = False"

definition isinstance :: "tree \<Rightarrow> node_id \<Rightarrow> (node_kind \<Rightarrow> bool) \<Rightarrow> bool" where
  "isinstance t n cls = cls (kind (t n))"

section \<open>The checker\<close>

definition is_cyrillic_str :: "pyobj \<Rightarrow> bool" where
  "is_cyrillic_str obj =
     (case obj of
        Val (PyStr s) \<Rightarrow> list_ex cyrillic_char s
      | _ \<Rightarrow> False)"

text \<open>The content tests of \<open>visit_const\<close>, in the order of the source.\<close>

definition whitelisted_strings :: "(ustring \<Rightarrow> bool) \<Rightarrow> (ustring \<Rightarrow> bool) list" where
  "whitelisted_strings float_parses =
     [\<lambda>x. x = [],
      is_number float_parses,
      \<lambda>x. startswith x (ascii ''^'') \<and> endswith x (ascii ''$''),
      \<lambda>x. contains x (ascii ''[^'') \<or> contains x [1072, 45, 1103]
             \<or> contains x [1040, 45, 1071],
      \<lambda>x. startswith x (ascii ''/'') \<or> endswith x (ascii ''/''),
      is_comment_in_sql]"

text \<open>
  The structural tests. Each is a class and a function of the current node and of the
  string node; the function may raise.
\<close>

type_synonym test = "tree \<Rightarrow> node_id \<Rightarrow> node_id \<Rightarrow> exn + bool"

definition dict_test :: test where
  "dict_test t curr_node node =
     and_then (attr_items (kind (t curr_node)))
       (\<lambda>items. Inr (node \<in> set (map fst items)))"

definition index_test :: test where
  "index_test t curr_node node =
     and_then (attr_value (kind (t curr_node))) (\<lambda>v. Inr (v = Ref node))"

definition assign_test :: test where
  "assign_test t curr_node node =
     and_then (attr_targets (kind (t curr_node)))
       (\<lambda>targets.
          if length targets = 1 then
            (case attr_name (kind (t (targets ! 0))) of
               Inl e \<Rightarrow> Inr False
             | Inr n \<Rightarrow>
                 Inr (n \<in> set [ascii ''db_table'', ascii ''verbose_name'',
                                ascii ''verbose_name_plural'']))
          else Inr False)"

definition delete_test :: test where
  "delete_test t curr_node node =
     and_then (attr_value (kind (t curr_node))) (\<lambda>v. Inr (v = Ref node))"

definition keyword_test :: test where
  "keyword_test t curr_node node =
     and_then (attr_arg (kind (t curr_node)))
       (\<lambda>arg.
          if arg \<in> set [Some (ascii ''verbose_name''), Some (ascii ''help_text'')] then
            and_then (attr_value (kind (t curr_node))) (\<lambda>v. Inr (v = Ref node))
          else Inr False)"

definition compare_ops_test :: test where
  "compare_ops_test t curr_node node =
     and_then (attr_ops (kind (t curr_node)))
       (\<lambda>ops. case ops of
                 [] \<Rightarrow> Inl IndexError
               | x # xs \<Rightarrow> Inr (node = snd x))"

definition compare_left_test :: test where
  "compare_left_test t curr_node node =
     and_then (attr_left (kind (t curr_node))) (\<lambda>left. Inr (node = left))"

definition queryset_methods :: "ustring list" where
  "queryset_methods =
     [ascii ''has_key'', ascii ''pop'', ascii ''order_by'', ascii ''strftime'',
      ascii ''strptime'', ascii ''get'', ascii ''select_related'', ascii ''values'',
      ascii ''filter'', ascii ''values_list'']"

definition queryset_test :: test where
  "queryset_test t curr_node node =
     and_then (attr_func (kind (t curr_node)))
       (\<lambda>func.
          if isinstance t func is_Attribute then
            and_then (attr_attrname (kind (t func)))
              (\<lambda>attrname. Inr (attrname \<in> set queryset_methods))
          else Inr False)"

definition logging_test :: test where
  "logging_test t curr_node node =
     and_then (attr_func (kind (t curr_node)))
       (\<lambda>func. and_then (attr_expr (kind (t func)))
          (\<lambda>expr. and_then (attr_name (kind (t expr)))
             (\<lambda>n. Inr (n \<in> set [ascii ''logging'', ascii ''logger'',
                                  ascii ''console_logger'']))))"

text \<open>
  \<open>all_names\<close> is \<open>django.db.models.__all__\<close>, a list of names that comes with the
  installed framework. A \<open>Call\<close> node always has \<open>args\<close>, a list.
\<close>

definition model_field_test :: "ustring list \<Rightarrow> test" where
  "model_field_test all_names t curr_node node =
     and_then (attr_func (kind (t curr_node)))
       (\<lambda>func. and_then (attr_attrname (kind (t func)))
          (\<lambda>attrname.
             if attrname \<in> set all_names then
               (case attr_args (kind (t curr_node)) of
                  Inl e \<Rightarrow> Inr False
                | Inr args \<Rightarrow>
                    if length args > 0 then Inr (args ! 0 = node) else Inr False)
             else Inr False))"

definition whitelist :: "ustring list \<Rightarrow> ((node_kind \<Rightarrow> bool) \<times> test) list" where
  "whitelist all_names =
     [(is_Dict, dict_test),
      (is_Index, index_test),
      (is_Assign, assign_test),
      (is_Delete, delete_test),
      (is_Keyword, keyword_test),
      (is_Compare, compare_ops_test),
      (is_Compare, compare_left_test),
      (is_Call, queryset_test),
      (is_Call, logging_test),
      (is_Call, model_field_test all_names)]"

definition gettext_names :: "ustring list" where
  "gettext_names =
     [ascii ''_'', ascii ''ugettext'', ascii ''ugettext_lazy'', ascii ''gettext'',
      ascii ''gettext_lazy'', ascii ''pgettext'', ascii ''pgettext_lazy'',
      ascii ''ngettext'', ascii ''ngettext_lazy'']"

text \<open>
  The test at the head of the loop body: the current node is a \<open>Call\<close> whose \<open>func\<close>
  has a \<open>name\<close>, one of the gettext names.
\<close>

definition in_gettext_call :: "tree \<Rightarrow> node_id \<Rightarrow> bool" where
  "in_gettext_call t curr_node =
     (if isinstance t curr_node is_Call then
        (case attr_func (kind (t curr_node)) of
           Inl e \<Rightarrow> False
         | Inr func \<Rightarrow>
             (case attr_name (kind (t func)) of
                Inl e \<Rightarrow> False
              | Inr n \<Rightarrow> n \<in> set gettext_names))
      else False)"

text \<open>
  The \<open>for cls, func in whitelist\<close> loop at one node. \<open>Inr True\<close>: a test held, the flag
  is set and the loop is left. \<open>Inr False\<close>: no test held. An \<open>AttributeError\<close> is
  passed over; any other exception leaves the loop.
\<close>

fun look_at_whitelist ::
  "((node_kind \<Rightarrow> bool) \<times> test) list \<Rightarrow> tree \<Rightarrow> node_id \<Rightarrow> node_id \<Rightarrow> exn + bool" where
  "look_at_whitelist [] t curr_node node = Inr False"
| "look_at_whitelist ((cls, func) # rest) t curr_node node =
     (if isinstance t curr_node cls then
        (case func t curr_node node of
           Inr True \<Rightarrow> Inr True
         | Inr False \<Rightarrow> look_at_whitelist rest t curr_node node
         | Inl AttributeError \<Rightarrow> look_at_whitelist rest t curr_node node
         | Inl e \<Rightarrow> Inl e)
      else look_at_whitelist rest t curr_node node)"

text \<open>
  The \<open>while curr_node.parent is not None\<close> loop inside the outer \<open>try\<close>; the result is
  the flag \<open>string_ok\<close> after the loop. An exception that reaches the outer handler
  ends the loop and leaves the flag as it is. The loop does not return on a cyclic
  chain of parents.
\<close>

partial_function (option) go_upwards ::
  "((node_kind \<Rightarrow> bool) \<times> test) list \<Rightarrow> tree \<Rightarrow> node_id \<Rightarrow> node_id \<Rightarrow> bool \<Rightarrow> bool option" where
  "go_upwards wl t node curr_node string_ok =
     (case parent (t curr_node) of
        None \<Rightarrow> Some string_ok
      | Some p \<Rightarrow>
          if in_gettext_call t curr_node then Some True
          else (case look_at_whitelist wl t curr_node node of
                  Inl e \<Rightarrow> Some string_ok
                | Inr hit \<Rightarrow> go_upwards wl t node p (string_ok \<or> hit)))"

record message =
  msg_id :: string
  msg_node :: node_id
  msg_args :: const_value

text \<open>
  \<open>visit_const\<close>: the messages added, \<open>None\<close> when the walk upwards does not return.
  Reading \<open>node.value\<close> is outside the \<open>try\<close>.
\<close>

definition visit_const ::
  "(ustring \<Rightarrow> bool) \<Rightarrow> ustring list \<Rightarrow> tree \<Rightarrow> node_id \<Rightarrow> (exn + message list) option" where
  "visit_const float_parses all_names t node =
     (case attr_value (kind (t node)) of
        Inl e \<Rightarrow> Some (Inl e)
      | Inr v \<Rightarrow>
          if \<not> is_cyrillic_str v then Some (Inr [])
          else (case v of
                  Val (PyStr x) \<Rightarrow>
                    if list_ex (\<lambda>func. func x) (whitelisted_strings float_parses)
                    then Some (Inr [])
                    else (case go_upwards (whitelist all_names) t node node False of
                            None \<Rightarrow> None
                          | Some string_ok \<Rightarrow>
                              if \<not> string_ok
                              then Some (Inr [\<lparr>msg_id = ''W0001'', msg_node = node,
                                               msg_args = PyStr x\<rparr>])
                              else Some (Inr []))
                | _ \<Rightarrow> Some (Inr [])))"

section \<open>Trees and paths\<close>

text \<open>
  \<open>path_to_root t n ns\<close>: following the parent links from \<open>n\<close> reaches the root, and
  \<open>ns\<close> lists the nodes on the way, \<open>n\<close> first and the root left out. These are the
  nodes the loop of \<open>visit_const\<close> looks at. In a tree every node has such a path.
\<close>

inductive path_to_root :: "tree \<Rightarrow> node_id \<Rightarrow> node_id list \<Rightarrow> bool" where
  at_root: "parent (t n) = None \<Longrightarrow> path_to_root t n []"
| below: "parent (t n) = Some p \<Longrightarrow> path_to_root t p ns \<Longrightarrow> path_to_root t n (n # ns)"

text \<open>The flag \<open>string_ok\<close> after the loop has looked at the nodes of a path.\<close>

fun flag_after ::
  "((node_kind \<Rightarrow> bool) \<times> test) list \<Rightarrow> tree \<Rightarrow> node_id \<Rightarrow> node_id list \<Rightarrow> bool \<Rightarrow> bool" where
  "flag_after wl t node [] string_ok = string_ok"
| "flag_after wl t node (c # cs) string_ok =
     (if in_gettext_call t c then True
      else (case look_at_whitelist wl t c node of
              Inl e \<Rightarrow> string_ok
            | Inr hit \<Rightarrow> flag_after wl t node cs (string_ok \<or> hit)))"

text \<open>
  What the parser guarantees of a node and a test relies on: a comparison has at least
  one operator with its operand.
\<close>

fun well_formed :: "node_kind \<Rightarrow> bool" where
  "well_formed (Compare left ops) = (ops \<noteq> [])"
| "well_formed _ = True"

section \<open>The ancestor scan as the specification words it\<close>

text \<open>
  Starting at the literal, while the current node has a parent: the localization-call
  check, then the structural rules; stop with \<open>EXEMPT\<close> at the first success, advance
  otherwise; \<open>FLAGGED\<close> when the root is reached, and when the walk cannot continue.
\<close>

datatype verdict = EXEMPT | FLAGGED

partial_function (option) reference_scan ::
  "((node_kind \<Rightarrow> bool) \<times> test) list \<Rightarrow> tree \<Rightarrow> node_id \<Rightarrow> node_id \<Rightarrow> verdict option" where
  "reference_scan rules t literal current =
     (case parent (t current) of
        None \<Rightarrow> Some FLAGGED
      | Some p \<Rightarrow>
          if in_gettext_call t current then Some EXEMPT
          else (case look_at_whitelist rules t current literal of
                  Inl e \<Rightarrow> Some FLAGGED
                | Inr success \<Rightarrow>
                    if success then Some EXEMPT else reference_scan rules t literal p))"

section \<open>Example trees\<close>

definition tree_of :: "(node_id \<times> node) list \<Rightarrow> tree" where
  "tree_of ns =
     (\<lambda>i. case map_of ns i of
             Some n \<Rightarrow> n
           | None \<Rightarrow> \<lparr>parent = None, kind = Other None\<rparr>)"

text \<open>The text \<open>Zakaz\<close> in Cyrillic letters.\<close>

definition zakaz :: ustring where
  "zakaz = [1047, 1072, 1082, 1072, 1079]"

text \<open>A module whose only statement is a constant.\<close>

definition expression_statement :: "const_value \<Rightarrow> tree" where
  "expression_statement v = tree_of
     [(0, \<lparr>parent = None, kind = Other (Some (ascii ''module''))\<rparr>),
      (1, \<lparr>parent = Some 0, kind = Other None\<rparr>),
      (2, \<lparr>parent = Some 1, kind = Const v\<rparr>)]"

definition bare_statement :: tree where
  "bare_statement = expression_statement (PyStr zakaz)"

text \<open>The text of the regular expression for a run of characters that are not Cyrillic.\<close>

definition not_cyrillic_regex :: ustring where
  "not_cyrillic_regex = [94, 91, 94, 1072, 45, 1103, 93, 43, 36]"

text \<open>A module whose only statement is the string passed to \<open>_\<close>.\<close>

definition gettext_statement :: tree where
  "gettext_statement = tree_of
     [(0, \<lparr>parent = None, kind = Other (Some (ascii ''module''))\<rparr>),
      (1, \<lparr>parent = Some 0, kind = Other None\<rparr>),
      (2, \<lparr>parent = Some 1, kind = Call 3 [4] []\<rparr>),
      (3, \<lparr>parent = Some 2, kind = Name (ascii ''_'')\<rparr>),
      (4, \<lparr>parent = Some 2, kind = Const (PyStr zakaz)\<rparr>)]"

text \<open>The text \<open>klyuch\<close> (key) in Cyrillic letters.\<close>

definition klyuch :: ustring where
  "klyuch = [1082, 1083, 1102, 1095]"

text \<open>A dictionary display with the key \<open>klyuch\<close> and the value \<open>Zakaz\<close>, as a statement.\<close>

definition dict_statement :: tree where
  "dict_statement = tree_of
     [(0, \<lparr>parent = None, kind = Other (Some (ascii ''module''))\<rparr>),
      (1, \<lparr>parent = Some 0, kind = Other None\<rparr>),
      (2, \<lparr>parent = Some 1, kind = Dict [(3, 4)]\<rparr>),
      (3, \<lparr>parent = Some 2, kind = Const (PyStr klyuch)\<rparr>),
      (4, \<lparr>parent = Some 2, kind = Const (PyStr zakaz)\<rparr>)]"

text \<open>
  The assignment \<open>name = models.CharField(s, s')\<close> with two string arguments, both
  \<open>Zakaz\<close>.
\<close>

definition field_assignment :: tree where
  "field_assignment = tree_of
     [(0, \<lparr>parent = None, kind = Other (Some (ascii ''module''))\<rparr>),
      (1, \<lparr>parent = Some 0, kind = Assign [2] 3\<rparr>),
      (2, \<lparr>parent = Some 1, kind = Other (Some (ascii ''name''))\<rparr>),
      (3, \<lparr>parent = Some 1, kind = Call 4 [6, 7] []\<rparr>),
      (4, \<lparr>parent = Some 3, kind = Attribute 5 (ascii ''CharField'')\<rparr>),
      (5, \<lparr>parent = Some 4, kind = Name (ascii ''models'')\<rparr>),
      (6, \<lparr>parent = Some 3, kind = Const (PyStr zakaz)\<rparr>),
      (7, \<lparr>parent = Some 3, kind = Const (PyStr zakaz)\<rparr>)]"

text \<open>
  The statement \<open>base.attr(str(s))\<close>: the string is an argument of the inner call, not
  of the method call.
\<close>

definition method_call :: "ustring \<Rightarrow> ustring \<Rightarrow> tree" where
  "method_call base attr = tree_of
     [(0, \<lparr>parent = None, kind = Other (Some (ascii ''module''))\<rparr>),
      (1, \<lparr>parent = Some 0, kind = Other None\<rparr>),
      (2, \<lparr>parent = Some 1, kind = Call 3 [5] []\<rparr>),
      (3, \<lparr>parent = Some 2, kind = Attribute 4 attr\<rparr>),
      (4, \<lparr>parent = Some 3, kind = Name base\<rparr>),
      (5, \<lparr>parent = Some 2, kind = Call 6 [7] []\<rparr>),
      (6, \<lparr>parent = Some 5, kind = Name (ascii ''str'')\<rparr>),
      (7, \<lparr>parent = Some 5, kind = Const (PyStr zakaz)\<rparr>)]"

text \<open>
  The statement \<open>del d[s]\<close> with the string \<open>klyuch\<close> as the index: the \<open>Delete\<close>
  has the subscript as its only target, the subscript has \<open>d\<close> and an \<open>Index\<close> node,
  and the \<open>Index\<close> has the string.
\<close>

definition delete_subscript :: tree where
  "delete_subscript = tree_of
     [(0, \<lparr>parent = None, kind = Other (Some (ascii ''module''))\<rparr>),
      (1, \<lparr>parent = Some 0, kind = Delete [2]\<rparr>),
      (2, \<lparr>parent = Some 1, kind = Other None\<rparr>),
      (3, \<lparr>parent = Some 2, kind = Index 4\<rparr>),
      (4, \<lparr>parent = Some 3, kind = Const (PyStr klyuch)\<rparr>),
      (5, \<lparr>parent = Some 2, kind = Name (ascii ''d'')\<rparr>)]"

section \<open>The loop on a path\<close>

lemma go_upwards_path:
  "path_to_root t c ns \<Longrightarrow> go_upwards wl t node c ok = Some (flag_after wl t node ns ok)"
proof (induction arbitrary: ok rule: path_to_root.induct)
  case (at_root t n)
  then show ?case by (simp add: go_upwards.simps)
next
  case (below t n p ns)
  then show ?case by (subst go_upwards.simps) (simp split: sum.splits)
qed

lemma flag_after_True: "flag_after wl t node ns True = True"
  by (induction ns) (auto split: sum.splits)

lemma look_at_whitelist_Cons:
  "look_at_whitelist ((cls, func) # rest) t c node =
     (if isinstance t c cls \<and> func t c node = Inr True then Inr True
      else if isinstance t c cls \<and> func t c node = Inl IndexError then Inl IndexError
      else look_at_whitelist rest t c node)"
proof (cases "func t c node")
  case (Inl e)
  then show ?thesis by (cases e) simp_all
next
  case (Inr b)
  then show ?thesis by (cases b) simp_all
qed

lemma look_no_attribute_error: "look_at_whitelist wl t c node \<noteq> Inl AttributeError"
proof (induction wl)
  case Nil
  then show ?case by simp
next
  case (Cons r wl)
  then show ?case by (cases r) (simp add: look_at_whitelist_Cons del: look_at_whitelist.simps)
qed

lemma look_returns:
  "\<forall>(cls, func) \<in> set wl. isinstance t c cls \<longrightarrow> func t c node \<noteq> Inl IndexError
   \<Longrightarrow> \<exists>b. look_at_whitelist wl t c node = Inr b"
proof (induction wl)
  case Nil
  show ?case by (rule exI [of _ False]) simp
next
  case (Cons r wl)
  then show ?case
    by (cases r) (auto simp: look_at_whitelist_Cons simp del: look_at_whitelist.simps)
qed

lemma look_hit:
  "(cls, func) \<in> set wl \<Longrightarrow> isinstance t c cls \<Longrightarrow> func t c node = Inr True
   \<Longrightarrow> look_at_whitelist wl t c node = Inr b \<Longrightarrow> b"
proof (induction wl)
  case Nil
  then show ?case by simp
next
  case (Cons r wl)
  then show ?case
    by (cases r)
       (auto simp: look_at_whitelist_Cons simp del: look_at_whitelist.simps split: if_splits)
qed

lemma look_miss:
  "\<forall>(cls, func) \<in> set wl. isinstance t c cls \<longrightarrow> func t c node \<noteq> Inr True
   \<Longrightarrow> look_at_whitelist wl t c node \<noteq> Inr True"
proof (induction wl)
  case Nil
  then show ?case by simp
next
  case (Cons r wl)
  then show ?case
    by (cases r) (auto simp: look_at_whitelist_Cons simp del: look_at_whitelist.simps)
qed

lemma flag_after_hit:
  assumes "\<forall>c \<in> set lower. \<exists>b. look_at_whitelist wl t c node = Inr b"
    and "in_gettext_call t a \<or> look_at_whitelist wl t a node = Inr True"
  shows "flag_after wl t node (lower @ a # upper) ok = True"
  using assms(1)
proof (induction lower arbitrary: ok)
  case Nil
  from assms(2) show ?case by (auto simp: flag_after_True)
next
  case (Cons c cs)
  then obtain b where "look_at_whitelist wl t c node = Inr b" by auto
  with Cons show ?case by simp
qed

lemma flag_after_miss:
  "\<forall>c \<in> set ns. \<not> in_gettext_call t c \<and> look_at_whitelist wl t c node \<noteq> Inr True
   \<Longrightarrow> flag_after wl t node ns False = False"
proof (induction ns)
  case Nil
  then show ?case by simp
next
  case (Cons c cs)
  show ?case
  proof (cases "look_at_whitelist wl t c node")
    case (Inl e)
    with Cons.prems show ?thesis by simp
  next
    case (Inr b)
    with Cons.prems have "\<not> b" by auto
    with Inr Cons show ?thesis by simp
  qed
qed

lemma whitelist_no_index_error:
  assumes "well_formed (kind (t c))" "(cls, func) \<in> set (whitelist al)"
  shows "func t c node \<noteq> Inl IndexError"
proof -
  have ops: "compare_ops_test t c node \<noteq> Inl IndexError"
    using assms(1) by (cases "kind (t c)") (auto simp: compare_ops_test_def split: list.splits)
  have 1: "dict_test t c node \<noteq> Inl IndexError"
    by (cases "kind (t c)") (auto simp: dict_test_def)
  have 2: "index_test t c node \<noteq> Inl IndexError"
    by (cases "kind (t c)") (auto simp: index_test_def)
  have 3: "assign_test t c node \<noteq> Inl IndexError"
    by (cases "kind (t c)") (auto simp: assign_test_def split: sum.splits)
  have 4: "delete_test t c node \<noteq> Inl IndexError"
    by (cases "kind (t c)") (auto simp: delete_test_def)
  have 5: "keyword_test t c node \<noteq> Inl IndexError"
    by (cases "kind (t c)") (auto simp: keyword_test_def)
  have 6: "compare_left_test t c node \<noteq> Inl IndexError"
    by (cases "kind (t c)") (auto simp: compare_left_test_def)
  have 7: "queryset_test t c node \<noteq> Inl IndexError"
  proof (cases "kind (t c)")
    case (Call f as ks)
    then show ?thesis
      by (cases "kind (t f)") (auto simp: queryset_test_def isinstance_def)
  qed (auto simp: queryset_test_def)
  have 8: "logging_test t c node \<noteq> Inl IndexError"
  proof (cases "kind (t c)")
    case (Call f as ks)
    show ?thesis
    proof (cases "kind (t f)")
      case (Attribute e a)
      then show ?thesis using Call
        by (cases "attr_name (kind (t e))") (auto simp: logging_test_def elim: attr_name.elims)
    qed (auto simp: logging_test_def Call)
  qed (auto simp: logging_test_def)
  have 9: "model_field_test al t c node \<noteq> Inl IndexError"
  proof (cases "kind (t c)")
    case (Call f as ks)
    then show ?thesis
      by (cases "kind (t f)") (auto simp: model_field_test_def)
  qed (auto simp: model_field_test_def)
  from assms(2) ops 1 2 3 4 5 6 7 8 9 show ?thesis
    by (auto simp: whitelist_def)
qed

inductive_simps path_to_root_Nil: "path_to_root t n []"

inductive_simps path_to_root_Cons: "path_to_root t n (m # ms)"

lemma whitelist_returns:
  "well_formed (kind (t c)) \<Longrightarrow> \<exists>b. look_at_whitelist (whitelist al) t c node = Inr b"
  by (rule look_returns) (auto dest: whitelist_no_index_error)

text \<open>
  The parser builds no comparison without an operator. At such a node the first
  comparison test would raise \<open>IndexError\<close> and end the walk, which is why the nodes
  looked at before a match are taken to be well formed below.
\<close>

lemma compare_without_operators_raises:
  "kind (t c) = Compare left [] \<Longrightarrow>
   look_at_whitelist (whitelist al) t c node = Inl IndexError"
  by (simp add: whitelist_def isinstance_def compare_ops_test_def)

lemma visit_const_path:
  assumes "kind (t node) = Const (PyStr x)"
    and "is_cyrillic_str (Val (PyStr x))"
    and "\<not> list_ex (\<lambda>func. func x) (whitelisted_strings fp)"
    and "path_to_root t node ns"
  shows "visit_const fp al t node =
           Some (Inr (if flag_after (whitelist al) t node ns False then []
                      else [\<lparr>msg_id = ''W0001'', msg_node = node, msg_args = PyStr x\<rparr>]))"
  using assms by (simp add: visit_const_def go_upwards_path)

lemma exempt_by_test:
  assumes "kind (t node) = Const (PyStr x)"
    and "is_cyrillic_str (Val (PyStr x))"
    and "\<not> list_ex (\<lambda>func. func x) (whitelisted_strings fp)"
    and "path_to_root t node (lower @ a # upper)"
    and "\<forall>c \<in> set lower. well_formed (kind (t c))"
    and "well_formed (kind (t a))"
    and "(cls, func) \<in> set (whitelist al)"
    and "isinstance t a cls"
    and "func t a node = Inr True"
  shows "visit_const fp al t node = Some (Inr [])"
proof -
  have ret: "\<forall>c \<in> set lower. \<exists>b. look_at_whitelist (whitelist al) t c node = Inr b"
    using assms(5) by (auto intro: whitelist_returns)
  obtain b where b: "look_at_whitelist (whitelist al) t a node = Inr b"
    using whitelist_returns [where t = t and c = a, OF assms(6)] by blast
  then have "b" by (rule look_hit [OF assms(7-9)])
  with b have "look_at_whitelist (whitelist al) t a node = Inr True" by simp
  then have "flag_after (whitelist al) t node (lower @ a # upper) False = True"
    using ret by (intro flag_after_hit) auto
  with visit_const_path [OF assms(1-4)] show ?thesis by simp
qed

lemma dict_only_dict_test:
  "kind (t d) = Dict items \<Longrightarrow>
   look_at_whitelist (whitelist al) t d node = Inr (node \<in> fst ` set items)"
  by (simp add: whitelist_def isinstance_def dict_test_def look_at_whitelist_Cons
      del: look_at_whitelist.simps(2))

text \<open>
  The test paired with \<open>Delete\<close> reads \<open>value\<close>, which a \<open>Delete\<close> node does not
  have: at such a node it raises, and no test of the whitelist holds.
\<close>

lemma delete_test_raises:
  "kind (t c) = Delete targets \<Longrightarrow> delete_test t c node = Inl AttributeError"
  by (simp add: delete_test_def)

lemma delete_never_exempts:
  "kind (t c) = Delete targets \<Longrightarrow> look_at_whitelist (whitelist al) t c node = Inr False"
  by (simp add: whitelist_def isinstance_def delete_test_def)

lemma reference_scan_path:
  "path_to_root t c ns \<Longrightarrow>
   reference_scan wl t node c =
     Some (if flag_after wl t node ns False then EXEMPT else FLAGGED)"
proof (induction rule: path_to_root.induct)
  case (at_root t n)
  then show ?case by (simp add: reference_scan.simps)
next
  case (below t n p ns)
  then show ?case
    by (subst reference_scan.simps) (simp add: flag_after_True split: sum.splits)
qed

lemma muted_test_same_look:
  assumes "func t a node = Inl AttributeError"
  shows "look_at_whitelist
           (before @ (cls, \<lambda>t' c n. if c = a then Inr False else func t' c n) # rest) t c node
         = look_at_whitelist (before @ (cls, func) # rest) t c node"
proof (induction before)
  case Nil
  show ?case using assms
    by (cases "c = a") (simp_all add: look_at_whitelist_Cons del: look_at_whitelist.simps(2))
next
  case (Cons r before)
  then show ?case
    by (cases r) (simp add: look_at_whitelist_Cons del: look_at_whitelist.simps(2))
qed

lemma flag_after_cong_look:
  "\<forall>c. look_at_whitelist wl t c node = look_at_whitelist wl' t c node
   \<Longrightarrow> flag_after wl t node ns ok = flag_after wl' t node ns ok"
  by (induction ns arbitrary: ok) (simp_all split: sum.splits)

lemma visit_const_no_exception:
  "kind (t node) = Const v \<Longrightarrow> visit_const fp al t node \<noteq> Some (Inl e)"
  by (auto simp: visit_const_def split: pyobj.splits const_value.splits option.splits)

subsection \<open>The example texts\<close>

lemma zakaz_cyrillic: "is_cyrillic_str (Val (PyStr zakaz))"
  by (simp add: is_cyrillic_str_def zakaz_def cyrillic_char_def)

lemma zakaz_not_whitelisted:
  "\<not> list_ex (\<lambda>func. func zakaz) (whitelisted_strings (\<lambda>text. False))"
  by (simp add: whitelisted_strings_def is_number_def startswith_def endswith_def
      contains_def ascii_def is_comment_in_sql_def strip_def py_isspace_def zakaz_def
      suffix_to_prefix sublist_Cons_right)

lemma klyuch_cyrillic: "is_cyrillic_str (Val (PyStr klyuch))"
  by (simp add: is_cyrillic_str_def klyuch_def cyrillic_char_def)

lemma klyuch_not_whitelisted:
  "\<not> list_ex (\<lambda>func. func klyuch) (whitelisted_strings (\<lambda>text. False))"
  by (simp add: whitelisted_strings_def is_number_def startswith_def endswith_def
      contains_def ascii_def is_comment_in_sql_def strip_def py_isspace_def klyuch_def
      suffix_to_prefix sublist_Cons_right)

section \<open>The claims\<close>

text \<open>
  C1. A literal whose value is a string with a Cyrillic letter, which no content test
  whitelists, and on whose path to the root no node passes the gettext-call test or
  makes a structural test hold, gets the message \<open>W0001\<close>, with the text of the
  literal as its argument. This holds also when an exception ends the walk early.
\<close>

theorem flagged_when_nothing_matches:
  assumes "kind (t node) = Const (PyStr x)"
    and "is_cyrillic_str (Val (PyStr x))"
    and "\<not> list_ex (\<lambda>func. func x) (whitelisted_strings float_parses)"
    and "path_to_root t node ns"
    and "\<forall>c \<in> set ns. \<not> in_gettext_call t c"
    and "\<forall>c \<in> set ns. \<forall>(cls, func) \<in> set (whitelist all_names).
           isinstance t c cls \<longrightarrow> func t c node \<noteq> Inr True"
  shows "visit_const float_parses all_names t node =
           Some (Inr [\<lparr>msg_id = ''W0001'', msg_node = node, msg_args = PyStr x\<rparr>])"
proof -
  have "\<forall>c \<in> set ns. \<not> in_gettext_call t c
          \<and> look_at_whitelist (whitelist all_names) t c node \<noteq> Inr True"
    using assms(5,6) by (auto intro!: look_miss)
  then have "flag_after (whitelist all_names) t node ns False = False"
    by (rule flag_after_miss)
  with visit_const_path [OF assms(1-4)] show ?thesis by simp
qed

theorem flagged_when_nothing_matches_witness:
  "kind (bare_statement 2) = Const (PyStr zakaz)
   \<and> is_cyrillic_str (Val (PyStr zakaz))
   \<and> \<not> list_ex (\<lambda>func. func zakaz) (whitelisted_strings (\<lambda>text. False))
   \<and> path_to_root bare_statement 2 [2, 1]
   \<and> list_all (\<lambda>c. \<not> in_gettext_call bare_statement c) [2, 1]
   \<and> list_all (\<lambda>c. \<forall>(cls, func) \<in> set (whitelist []).
          isinstance bare_statement c cls \<longrightarrow> func bare_statement c 2 \<noteq> Inr True) [2, 1]
   \<and> visit_const (\<lambda>text. False) [] bare_statement 2 =
         Some (Inr [\<lparr>msg_id = ''W0001'', msg_node = 2, msg_args = PyStr zakaz\<rparr>])"
proof -
  have k: "kind (bare_statement 2) = Const (PyStr zakaz)"
    by (simp add: bare_statement_def expression_statement_def tree_of_def)
  have p: "path_to_root bare_statement 2 [2, 1]"
    by (simp add: path_to_root_Nil path_to_root_Cons bare_statement_def
        expression_statement_def tree_of_def)
  have g: "\<forall>c \<in> set [2, 1]. \<not> in_gettext_call bare_statement c"
    by (simp add: in_gettext_call_def isinstance_def bare_statement_def
        expression_statement_def tree_of_def)
  have w: "\<forall>c \<in> set [2, 1]. \<forall>(cls, func) \<in> set (whitelist []).
          isinstance bare_statement c cls \<longrightarrow> func bare_statement c 2 \<noteq> Inr True"
    by (simp add: whitelist_def isinstance_def bare_statement_def
        expression_statement_def tree_of_def)
  show ?thesis
    using flagged_when_nothing_matches [OF k zakaz_cyrillic zakaz_not_whitelisted p g w]
      k zakaz_cyrillic zakaz_not_whitelisted p g w
    unfolding list_all_iff by blast
qed

text \<open>
  C2. A literal that reaches the walk upwards and has, on its path below the root, a
  \<open>Call\<close> whose \<open>func\<close> is a \<open>Name\<close> with one of the nine gettext names gets no
  message. The nodes looked at before the call are as the parser builds them.
\<close>

theorem exempt_inside_gettext_call:
  assumes "kind (t node) = Const (PyStr x)"
    and "is_cyrillic_str (Val (PyStr x))"
    and "\<not> list_ex (\<lambda>func. func x) (whitelisted_strings float_parses)"
    and "path_to_root t node (lower @ a # upper)"
    and "\<forall>c \<in> set lower. well_formed (kind (t c))"
    and "kind (t a) = Call func args keywords"
    and "kind (t func) = Name n"
    and "n \<in> set gettext_names"
  shows "visit_const float_parses all_names t node = Some (Inr [])"
proof -
  have "in_gettext_call t a"
    using assms(6-8) by (simp add: in_gettext_call_def isinstance_def)
  moreover have "\<forall>c \<in> set lower. \<exists>b. look_at_whitelist (whitelist all_names) t c node = Inr b"
    using assms(5) by (auto intro: whitelist_returns)
  ultimately have "flag_after (whitelist all_names) t node (lower @ a # upper) False = True"
    by (intro flag_after_hit) auto
  with visit_const_path [OF assms(1-4)] show ?thesis by simp
qed

theorem exempt_inside_gettext_call_witness:
  "kind (gettext_statement 4) = Const (PyStr zakaz)
   \<and> is_cyrillic_str (Val (PyStr zakaz))
   \<and> \<not> list_ex (\<lambda>func. func zakaz) (whitelisted_strings (\<lambda>text. False))
   \<and> path_to_root gettext_statement 4 ([4] @ 2 # [1])
   \<and> list_all (\<lambda>c. well_formed (kind (gettext_statement c))) [4]
   \<and> kind (gettext_statement 2) = Call 3 [4] []
   \<and> kind (gettext_statement 3) = Name (ascii ''_'')
   \<and> ascii ''_'' \<in> set gettext_names
   \<and> visit_const (\<lambda>text. False) [] gettext_statement 4 = Some (Inr [])"
proof -
  have k: "kind (gettext_statement 4) = Const (PyStr zakaz)"
    by (simp add: gettext_statement_def tree_of_def)
  have p: "path_to_root gettext_statement 4 ([4] @ 2 # [1])"
    by (simp add: path_to_root_Nil path_to_root_Cons gettext_statement_def tree_of_def)
  have w: "\<forall>c \<in> set [4]. well_formed (kind (gettext_statement c))"
    by (simp add: gettext_statement_def tree_of_def)
  have c: "kind (gettext_statement 2) = Call 3 [4] []"
    by (simp add: gettext_statement_def tree_of_def)
  have f: "kind (gettext_statement 3) = Name (ascii ''_'')"
    by (simp add: gettext_statement_def tree_of_def)
  have n: "ascii ''_'' \<in> set gettext_names"
    by (simp add: gettext_names_def)
  show ?thesis
    using exempt_inside_gettext_call [OF k zakaz_cyrillic zakaz_not_whitelisted p w c f n]
      k zakaz_cyrillic zakaz_not_whitelisted p w c f n
    unfolding list_all_iff by blast
qed

text \<open>
  C3. A literal with a Cyrillic letter whose text is empty, or is accepted by \<open>float\<close>,
  or starts with \<open>^\<close> and ends with \<open>$\<close>, or contains \<open>[^\<close> or one of the two
  range markers, or starts or ends with \<open>/\<close>, or has a line that starts with \<open>--\<close>
  once stripped, gets no message, in every tree: \<open>visit_const\<close> returns before the walk
  upwards, so nothing is assumed of the parent links.
\<close>

theorem whitelisted_content_exempt:
  assumes "kind (t node) = Const (PyStr x)"
    and "is_cyrillic_str (Val (PyStr x))"
    and "x = [] \<or> is_number float_parses x
         \<or> (startswith x (ascii ''^'') \<and> endswith x (ascii ''$''))
         \<or> contains x (ascii ''[^'') \<or> contains x [1072, 45, 1103]
         \<or> contains x [1040, 45, 1071]
         \<or> startswith x (ascii ''/'') \<or> endswith x (ascii ''/'')
         \<or> (\<exists>row \<in> set (split x 10). startswith (strip row) (ascii ''--''))"
  shows "visit_const float_parses all_names t node = Some (Inr [])"
proof -
  have "list_ex (\<lambda>func. func x) (whitelisted_strings float_parses)"
    using assms(3)
    by (auto simp: whitelisted_strings_def is_comment_in_sql_def list_ex_iff)
  with assms(1,2) show ?thesis by (simp add: visit_const_def)
qed

theorem whitelisted_content_exempt_witness:
  "kind (expression_statement (PyStr not_cyrillic_regex) 2) = Const (PyStr not_cyrillic_regex)
   \<and> is_cyrillic_str (Val (PyStr not_cyrillic_regex))
   \<and> startswith not_cyrillic_regex (ascii ''^'') \<and> endswith not_cyrillic_regex (ascii ''$'')
   \<and> contains not_cyrillic_regex (ascii ''[^'')
   \<and> contains not_cyrillic_regex [1072, 45, 1103]
   \<and> visit_const (\<lambda>text. False) [] (expression_statement (PyStr not_cyrillic_regex)) 2
       = Some (Inr [])"
proof -
  have k: "kind (expression_statement (PyStr not_cyrillic_regex) 2)
             = Const (PyStr not_cyrillic_regex)"
    by (simp add: expression_statement_def tree_of_def)
  have c: "is_cyrillic_str (Val (PyStr not_cyrillic_regex))"
    by (simp add: is_cyrillic_str_def not_cyrillic_regex_def cyrillic_char_def)
  have r: "startswith not_cyrillic_regex (ascii ''^'') \<and> endswith not_cyrillic_regex (ascii ''$'')"
    by (simp add: startswith_def endswith_def ascii_def not_cyrillic_regex_def suffix_to_prefix)
  have m: "contains not_cyrillic_regex (ascii ''[^'')"
    by (simp add: contains_def ascii_def not_cyrillic_regex_def sublist_Cons_right)
  have m': "contains not_cyrillic_regex [1072, 45, 1103]"
    by (simp add: contains_def ascii_def not_cyrillic_regex_def sublist_Cons_right)
  from r have "not_cyrillic_regex = [] \<or> is_number (\<lambda>text. False) not_cyrillic_regex
         \<or> (startswith not_cyrillic_regex (ascii ''^'') \<and> endswith not_cyrillic_regex (ascii ''$''))
         \<or> contains not_cyrillic_regex (ascii ''[^'') \<or> contains not_cyrillic_regex [1072, 45, 1103]
         \<or> contains not_cyrillic_regex [1040, 45, 1071]
         \<or> startswith not_cyrillic_regex (ascii ''/'') \<or> endswith not_cyrillic_regex (ascii ''/'')
         \<or> (\<exists>row \<in> set (split not_cyrillic_regex 10). startswith (strip row) (ascii ''--''))"
    by blast
  from whitelisted_content_exempt
         [where t = "expression_statement (PyStr not_cyrillic_regex)" and node = 2, OF k c this]
       k c r m m'
  show ?thesis by blast
qed

text \<open>
  C4. A constant that is not a string with a Cyrillic letter (a number, \<open>None\<close>, a
  string in another script) gets no message, in every tree and whatever \<open>float\<close> and
  the list of model names are: neither the content tests nor the walk upwards run.
\<close>

theorem not_cyrillic_not_checked:
  assumes "kind (t node) = Const v"
    and "\<not> (\<exists>s. v = PyStr s \<and> (\<exists>c \<in> set s. cyrillic_char c))"
  shows "visit_const float_parses all_names t node = Some (Inr [])"
proof -
  have "\<not> is_cyrillic_str (Val v)"
    using assms(2) by (cases v) (auto simp: is_cyrillic_str_def list_ex_iff)
  with assms(1) show ?thesis by (simp add: visit_const_def)
qed

theorem not_cyrillic_not_checked_witness:
  "kind (expression_statement (PyInt 5) 2) = Const (PyInt 5)
   \<and> \<not> (\<exists>s. PyInt 5 = PyStr s \<and> (\<exists>c \<in> set s. cyrillic_char c))
   \<and> visit_const (\<lambda>text. False) [] (expression_statement (PyInt 5)) 2 = Some (Inr [])
   \<and> kind (expression_statement (PyStr (ascii ''order'')) 2) = Const (PyStr (ascii ''order''))
   \<and> \<not> (\<exists>s. PyStr (ascii ''order'') = PyStr s \<and> (\<exists>c \<in> set s. cyrillic_char c))
   \<and> visit_const (\<lambda>text. False) [] (expression_statement (PyStr (ascii ''order''))) 2
       = Some (Inr [])"
proof -
  have k: "kind (expression_statement (PyInt 5) 2) = Const (PyInt 5)"
    by (simp add: expression_statement_def tree_of_def)
  have n: "\<not> (\<exists>s. PyInt 5 = PyStr s \<and> (\<exists>c \<in> set s. cyrillic_char c))"
    by simp
  have k': "kind (expression_statement (PyStr (ascii ''order'')) 2) = Const (PyStr (ascii ''order''))"
    by (simp add: expression_statement_def tree_of_def)
  have n': "\<not> (\<exists>s. PyStr (ascii ''order'') = PyStr s \<and> (\<exists>c \<in> set s. cyrillic_char c))"
    by (simp add: ascii_def cyrillic_char_def)
  from not_cyrillic_not_checked [where t = "expression_statement (PyInt 5)" and node = 2, OF k n]
       not_cyrillic_not_checked
         [where t = "expression_statement (PyStr (ascii ''order''))" and node = 2, OF k' n']
       k n k' n'
  show ?thesis by blast
qed

text \<open>
  C5. A literal that reaches the walk upwards and is, as a node, one of the keys of a
  \<open>Dict\<close> on its path below the root gets no message. When it is not one of the keys
  (so also when it is only a value), the dictionary test is false and no test of the
  whitelist holds at the dictionary: an exemption can only come from another node.
\<close>

theorem dict_key_exempt:
  assumes "kind (t node) = Const (PyStr x)"
    and "is_cyrillic_str (Val (PyStr x))"
    and "\<not> list_ex (\<lambda>func. func x) (whitelisted_strings float_parses)"
    and "path_to_root t node (lower @ d # upper)"
    and "\<forall>c \<in> set lower. well_formed (kind (t c))"
    and "kind (t d) = Dict items"
  shows "(node \<in> fst ` set items \<longrightarrow>
            visit_const float_parses all_names t node = Some (Inr []))
       \<and> (node \<notin> fst ` set items \<longrightarrow>
            dict_test t d node = Inr False
            \<and> look_at_whitelist (whitelist all_names) t d node = Inr False)"
proof (intro conjI impI)
  assume key: "node \<in> fst ` set items"
  have "dict_test t d node = Inr True"
    using assms(6) key by (simp add: dict_test_def)
  moreover have "(is_Dict, dict_test) \<in> set (whitelist all_names)"
    by (simp add: whitelist_def)
  moreover have "isinstance t d is_Dict" "well_formed (kind (t d))"
    using assms(6) by (simp_all add: isinstance_def)
  ultimately show "visit_const float_parses all_names t node = Some (Inr [])"
    using exempt_by_test [OF assms(1-5)] by blast
next
  assume "node \<notin> fst ` set items"
  with assms(6) show "dict_test t d node = Inr False"
    by (simp add: dict_test_def)
next
  assume "node \<notin> fst ` set items"
  with dict_only_dict_test [where t = t and d = d, OF assms(6)]
  show "look_at_whitelist (whitelist all_names) t d node = Inr False"
    by simp
qed

theorem dict_key_exempt_witness:
  "kind (dict_statement 3) = Const (PyStr klyuch)
   \<and> kind (dict_statement 4) = Const (PyStr zakaz)
   \<and> is_cyrillic_str (Val (PyStr klyuch)) \<and> is_cyrillic_str (Val (PyStr zakaz))
   \<and> \<not> list_ex (\<lambda>func. func klyuch) (whitelisted_strings (\<lambda>text. False))
   \<and> \<not> list_ex (\<lambda>func. func zakaz) (whitelisted_strings (\<lambda>text. False))
   \<and> path_to_root dict_statement 3 ([3] @ 2 # [1])
   \<and> path_to_root dict_statement 4 ([4] @ 2 # [1])
   \<and> list_all (\<lambda>c. well_formed (kind (dict_statement c))) [4, 3]
   \<and> kind (dict_statement 2) = Dict [(3, 4)]
   \<and> 3 \<in> fst ` set [(3::nat, 4::nat)] \<and> 4 \<notin> fst ` set [(3::nat, 4::nat)]
   \<and> visit_const (\<lambda>text. False) [] dict_statement 3 = Some (Inr [])
   \<and> dict_test dict_statement 2 4 = Inr False
   \<and> look_at_whitelist (whitelist []) dict_statement 2 4 = Inr False
   \<and> visit_const (\<lambda>text. False) [] dict_statement 4 =
        Some (Inr [\<lparr>msg_id = ''W0001'', msg_node = 4, msg_args = PyStr zakaz\<rparr>])"
proof -
  have k3: "kind (dict_statement 3) = Const (PyStr klyuch)"
    and k4: "kind (dict_statement 4) = Const (PyStr zakaz)"
    and d: "kind (dict_statement 2) = Dict [(3, 4)]"
    by (simp_all add: dict_statement_def tree_of_def)
  have p3: "path_to_root dict_statement 3 ([3] @ 2 # [1])"
    and p4: "path_to_root dict_statement 4 ([4] @ 2 # [1])"
    by (simp_all add: path_to_root_Nil path_to_root_Cons dict_statement_def tree_of_def)
  have w3: "\<forall>c \<in> set [3]. well_formed (kind (dict_statement c))"
    and w4: "\<forall>c \<in> set [4]. well_formed (kind (dict_statement c))"
    by (simp_all add: dict_statement_def tree_of_def)
  have key: "3 \<in> fst ` set [(3::nat, 4::nat)]" and val: "4 \<notin> fst ` set [(3::nat, 4::nat)]"
    by simp_all
  have other: "look_at_whitelist (whitelist []) dict_statement 4 4 = Inr False"
    "look_at_whitelist (whitelist []) dict_statement 1 4 = Inr False"
    "\<not> in_gettext_call dict_statement 4" "\<not> in_gettext_call dict_statement 2"
    "\<not> in_gettext_call dict_statement 1"
    by (simp_all add: whitelist_def isinstance_def in_gettext_call_def dict_statement_def
        tree_of_def)
  note key_side = dict_key_exempt
    [where all_names = "[]", OF k3 klyuch_cyrillic klyuch_not_whitelisted p3 w3 d]
  note value_side = dict_key_exempt
    [where all_names = "[]", OF k4 zakaz_cyrillic zakaz_not_whitelisted p4 w4 d]
  have flagged: "visit_const (\<lambda>text. False) [] dict_statement 4 =
        Some (Inr [\<lparr>msg_id = ''W0001'', msg_node = 4, msg_args = PyStr zakaz\<rparr>])"
    using value_side val other
    by (simp add: visit_const_path [OF k4 zakaz_cyrillic zakaz_not_whitelisted p4])
  from key_side value_side key val k3 k4 d p3 p4 w3 w4 flagged
    klyuch_cyrillic klyuch_not_whitelisted zakaz_cyrillic zakaz_not_whitelisted
  show ?thesis by (simp add: list_all_iff)
qed

text \<open>
  C6. A literal that reaches the walk upwards and is, as a node, the first positional
  argument of a \<open>Call\<close> on its path whose \<open>func\<close> is an \<open>Attribute\<close> with an
  \<open>attrname\<close> in the list of model names gets no message. When it is not the first
  positional argument (so also when it is the second or a later one), the model-field
  test is false.
\<close>

theorem model_field_first_argument_exempt:
  assumes "kind (t node) = Const (PyStr x)"
    and "is_cyrillic_str (Val (PyStr x))"
    and "\<not> list_ex (\<lambda>func. func x) (whitelisted_strings float_parses)"
    and "path_to_root t node (lower @ c # upper)"
    and "\<forall>b \<in> set lower. well_formed (kind (t b))"
    and "kind (t c) = Call func args keywords"
    and "kind (t func) = Attribute expr attrname"
    and "attrname \<in> set all_names"
  shows "(args \<noteq> [] \<and> args ! 0 = node \<longrightarrow>
            visit_const float_parses all_names t node = Some (Inr []))
       \<and> (\<not> (args \<noteq> [] \<and> args ! 0 = node) \<longrightarrow>
            model_field_test all_names t c node = Inr False)"
proof (intro conjI impI)
  assume first: "args \<noteq> [] \<and> args ! 0 = node"
  have "model_field_test all_names t c node = Inr True"
    using assms(6-8) first by (simp add: model_field_test_def)
  moreover have "(is_Call, model_field_test all_names) \<in> set (whitelist all_names)"
    by (simp add: whitelist_def)
  moreover have "isinstance t c is_Call" "well_formed (kind (t c))"
    using assms(6) by (simp_all add: isinstance_def)
  ultimately show "visit_const float_parses all_names t node = Some (Inr [])"
    using exempt_by_test [OF assms(1-5)] by blast
next
  assume "\<not> (args \<noteq> [] \<and> args ! 0 = node)"
  with assms(6-8) show "model_field_test all_names t c node = Inr False"
    by (auto simp: model_field_test_def)
qed

theorem model_field_first_argument_exempt_witness:
  "kind (field_assignment 6) = Const (PyStr zakaz)
   \<and> kind (field_assignment 7) = Const (PyStr zakaz)
   \<and> is_cyrillic_str (Val (PyStr zakaz))
   \<and> \<not> list_ex (\<lambda>func. func zakaz) (whitelisted_strings (\<lambda>text. False))
   \<and> path_to_root field_assignment 6 ([6] @ 3 # [1])
   \<and> path_to_root field_assignment 7 ([7] @ 3 # [1])
   \<and> list_all (\<lambda>c. well_formed (kind (field_assignment c))) [7, 6]
   \<and> kind (field_assignment 3) = Call 4 [6, 7] []
   \<and> kind (field_assignment 4) = Attribute 5 (ascii ''CharField'')
   \<and> ascii ''CharField'' \<in> set [ascii ''CharField'', ascii ''TextField'']
   \<and> [6, 7] ! 0 = (6::nat) \<and> [6, 7] ! 1 = (7::nat)
   \<and> visit_const (\<lambda>text. False) [ascii ''CharField'', ascii ''TextField''] field_assignment 6
       = Some (Inr [])
   \<and> model_field_test [ascii ''CharField'', ascii ''TextField''] field_assignment 3 7
       = Inr False"
proof -
  have k6: "kind (field_assignment 6) = Const (PyStr zakaz)"
    and k7: "kind (field_assignment 7) = Const (PyStr zakaz)"
    and c: "kind (field_assignment 3) = Call 4 [6, 7] []"
    and f: "kind (field_assignment 4) = Attribute 5 (ascii ''CharField'')"
    by (simp_all add: field_assignment_def tree_of_def)
  have p6: "path_to_root field_assignment 6 ([6] @ 3 # [1])"
    and p7: "path_to_root field_assignment 7 ([7] @ 3 # [1])"
    by (simp_all add: path_to_root_Nil path_to_root_Cons field_assignment_def tree_of_def)
  have w6: "\<forall>c \<in> set [6]. well_formed (kind (field_assignment c))"
    and w7: "\<forall>c \<in> set [7]. well_formed (kind (field_assignment c))"
    by (simp_all add: field_assignment_def tree_of_def)
  have a: "ascii ''CharField'' \<in> set [ascii ''CharField'', ascii ''TextField'']"
    by simp
  note first = model_field_first_argument_exempt
    [OF k6 zakaz_cyrillic zakaz_not_whitelisted p6 w6 c f a]
  note second = model_field_first_argument_exempt
    [OF k7 zakaz_cyrillic zakaz_not_whitelisted p7 w7 c f a]
  from first second k6 k7 c f p6 p7 w6 w7 a zakaz_cyrillic zakaz_not_whitelisted
  show ?thesis by (simp add: list_all_iff)
qed

text \<open>
  C7. Let a test of the whitelist raise \<open>AttributeError\<close> at a node \<open>a\<close>. Then the
  tests after it are tried at \<open>a\<close> as if it were not in the list; looking at the
  whitelist never ends with an \<open>AttributeError\<close>; on a path to the root the loop
  returns, with the flag it returns when that test answers \<open>False\<close> at \<open>a\<close> instead
  of raising; and \<open>visit_const\<close> on a constant raises nothing.
\<close>

theorem attribute_error_is_no_match:
  assumes "kind (t node) = Const v"
    and "path_to_root t node ns"
    and "func t a node = Inl AttributeError"
  shows "look_at_whitelist ((cls, func) # rest) t a node = look_at_whitelist rest t a node
       \<and> look_at_whitelist (before @ (cls, func) # rest) t a node \<noteq> Inl AttributeError
       \<and> (\<exists>string_ok.
             go_upwards (before @ (cls, func) # rest) t node node False = Some string_ok
             \<and> go_upwards
                 (before @ (cls, \<lambda>t' c n. if c = a then Inr False else func t' c n) # rest)
                 t node node False = Some string_ok)
       \<and> visit_const float_parses all_names t node \<noteq> Some (Inl AttributeError)"
proof (intro conjI)
  show "look_at_whitelist ((cls, func) # rest) t a node = look_at_whitelist rest t a node"
    using assms(3) by simp
  show "look_at_whitelist (before @ (cls, func) # rest) t a node \<noteq> Inl AttributeError"
    by (rule look_no_attribute_error)
  have "flag_after (before @ (cls, \<lambda>t' c n. if c = a then Inr False else func t' c n) # rest)
          t node ns False
        = flag_after (before @ (cls, func) # rest) t node ns False"
    using muted_test_same_look [of func t a node before cls rest, OF assms(3)]
    by (intro flag_after_cong_look) simp
  then show "\<exists>string_ok.
             go_upwards (before @ (cls, func) # rest) t node node False = Some string_ok
             \<and> go_upwards
                 (before @ (cls, \<lambda>t' c n. if c = a then Inr False else func t' c n) # rest)
                 t node node False = Some string_ok"
    by (simp add: go_upwards_path [OF assms(2)])
  show "visit_const float_parses all_names t node \<noteq> Some (Inl AttributeError)"
    using assms(1) by (rule visit_const_no_exception)
qed

theorem attribute_error_is_no_match_witness:
  "kind (delete_subscript 4) = Const (PyStr klyuch)
   \<and> path_to_root delete_subscript 4 [4, 3, 2, 1]
   \<and> delete_test delete_subscript 1 4 = Inl AttributeError
   \<and> whitelist [] = take 3 (whitelist []) @ (is_Delete, delete_test) # drop 4 (whitelist [])
   \<and> look_at_whitelist ((is_Delete, delete_test) # drop 4 (whitelist [])) delete_subscript 1 4
       = look_at_whitelist (drop 4 (whitelist [])) delete_subscript 1 4
   \<and> look_at_whitelist (whitelist []) delete_subscript 1 4 \<noteq> Inl AttributeError
   \<and> (\<exists>string_ok.
         go_upwards (whitelist []) delete_subscript 4 4 False = Some string_ok
         \<and> go_upwards
             (take 3 (whitelist [])
              @ (is_Delete, \<lambda>t' c n. if c = 1 then Inr False else delete_test t' c n)
              # drop 4 (whitelist []))
             delete_subscript 4 4 False = Some string_ok)
   \<and> visit_const (\<lambda>text. False) [] delete_subscript 4 \<noteq> Some (Inl AttributeError)"
proof -
  have k: "kind (delete_subscript 4) = Const (PyStr klyuch)"
    by (simp add: delete_subscript_def tree_of_def)
  have p: "path_to_root delete_subscript 4 [4, 3, 2, 1]"
    by (simp add: path_to_root_Nil path_to_root_Cons delete_subscript_def tree_of_def)
  have r: "delete_test delete_subscript 1 4 = Inl AttributeError"
    by (simp add: delete_test_def delete_subscript_def tree_of_def)
  have s: "whitelist [] = take 3 (whitelist []) @ (is_Delete, delete_test) # drop 4 (whitelist [])"
    by (simp add: whitelist_def)
  from attribute_error_is_no_match
         [where t = delete_subscript and node = 4 and func = delete_test and a = 1
            and cls = is_Delete and rest = "drop 4 (whitelist [])"
            and before = "take 3 (whitelist [])" and float_parses = "\<lambda>text. False"
            and all_names = "[]", OF k p r]
       k p r s
  show ?thesis by simp
qed

text \<open>
  C8. On every path to the root, and for every list of tests, the scan of the
  specification returns, and the loop of \<open>visit_const\<close> returns with the flag set
  exactly when the verdict of that scan is \<open>EXEMPT\<close>.
\<close>

theorem scan_agrees_with_reference:
  assumes "path_to_root t node ns"
  shows "\<exists>v. reference_scan wl t node node = Some v
           \<and> go_upwards wl t node node False = Some (v = EXEMPT)"
  using assms by (simp add: reference_scan_path go_upwards_path)

theorem scan_agrees_with_reference_witness:
  "path_to_root dict_statement 3 [3, 2, 1]
   \<and> reference_scan (whitelist []) dict_statement 3 3 = Some EXEMPT
   \<and> go_upwards (whitelist []) dict_statement 3 3 False = Some True
   \<and> path_to_root bare_statement 2 [2, 1]
   \<and> reference_scan (whitelist []) bare_statement 2 2 = Some FLAGGED
   \<and> go_upwards (whitelist []) bare_statement 2 2 False = Some False"
proof -
  have p: "path_to_root dict_statement 3 [3, 2, 1]"
    by (simp add: path_to_root_Nil path_to_root_Cons dict_statement_def tree_of_def)
  have q: "path_to_root bare_statement 2 [2, 1]"
    by (simp add: path_to_root_Nil path_to_root_Cons bare_statement_def
        expression_statement_def tree_of_def)
  have "flag_after (whitelist []) dict_statement 3 [3, 2, 1] False = True"
    by (simp add: whitelist_def isinstance_def in_gettext_call_def dict_test_def
        dict_statement_def tree_of_def)
  then have g: "go_upwards (whitelist []) dict_statement 3 3 False = Some True"
    by (simp add: go_upwards_path [OF p])
  have "flag_after (whitelist []) bare_statement 2 [2, 1] False = False"
    by (simp add: whitelist_def isinstance_def in_gettext_call_def bare_statement_def
        expression_statement_def tree_of_def)
  then have h: "go_upwards (whitelist []) bare_statement 2 2 False = Some False"
    by (simp add: go_upwards_path [OF q])
  from scan_agrees_with_reference [OF p, of "whitelist []"]
       scan_agrees_with_reference [OF q, of "whitelist []"] g h p q
  show ?thesis by (auto intro: verdict.exhaust)
qed

text \<open>
  C10. A literal that reaches the walk upwards gets no message when some \<open>Call\<close> on
  its path below the root has as \<open>func\<close> an \<open>Attribute\<close> whose \<open>attrname\<close> is one of
  the ten queryset method names, or whose \<open>expr\<close> is a \<open>Name\<close> among \<open>logging\<close>,
  \<open>logger\<close>, \<open>console_logger\<close>. Nothing is asked of where the literal stands under
  the call: in the examples it is the argument of an inner call.
\<close>

theorem queryset_or_logging_call_exempt:
  assumes "kind (t node) = Const (PyStr x)"
    and "is_cyrillic_str (Val (PyStr x))"
    and "\<not> list_ex (\<lambda>func. func x) (whitelisted_strings float_parses)"
    and "path_to_root t node (lower @ c # upper)"
    and "\<forall>b \<in> set lower. well_formed (kind (t b))"
    and "kind (t c) = Call func args keywords"
    and "kind (t func) = Attribute expr attrname"
    and "attrname \<in> set queryset_methods
         \<or> (\<exists>n. kind (t expr) = Name n
                 \<and> n \<in> set [ascii ''logging'', ascii ''logger'', ascii ''console_logger''])"
  shows "visit_const float_parses all_names t node = Some (Inr [])"
proof -
  have inst: "isinstance t c is_Call" "well_formed (kind (t c))"
    using assms(6) by (simp_all add: isinstance_def)
  from assms(8) show ?thesis
  proof
    assume "attrname \<in> set queryset_methods"
    then have "queryset_test t c node = Inr True"
      using assms(6,7) by (simp add: queryset_test_def isinstance_def)
    moreover have "(is_Call, queryset_test) \<in> set (whitelist all_names)"
      by (simp add: whitelist_def)
    ultimately show ?thesis
      using exempt_by_test [OF assms(1-5)] inst by blast
  next
    assume "\<exists>n. kind (t expr) = Name n
                 \<and> n \<in> set [ascii ''logging'', ascii ''logger'', ascii ''console_logger'']"
    then have "logging_test t c node = Inr True"
      using assms(6,7) by (auto simp: logging_test_def)
    moreover have "(is_Call, logging_test) \<in> set (whitelist all_names)"
      by (simp add: whitelist_def)
    ultimately show ?thesis
      using exempt_by_test [OF assms(1-5)] inst by blast
  qed
qed

theorem queryset_or_logging_call_exempt_witness:
  "kind (method_call (ascii ''queryset'') (ascii ''order_by'') 7) = Const (PyStr zakaz)
   \<and> kind (method_call (ascii ''logger'') (ascii ''info'') 7) = Const (PyStr zakaz)
   \<and> is_cyrillic_str (Val (PyStr zakaz))
   \<and> \<not> list_ex (\<lambda>func. func zakaz) (whitelisted_strings (\<lambda>text. False))
   \<and> path_to_root (method_call (ascii ''queryset'') (ascii ''order_by'')) 7 ([7, 5] @ 2 # [1])
   \<and> path_to_root (method_call (ascii ''logger'') (ascii ''info'')) 7 ([7, 5] @ 2 # [1])
   \<and> list_all (\<lambda>c. well_formed (kind (method_call (ascii ''queryset'') (ascii ''order_by'') c)))
         [7, 5]
   \<and> list_all (\<lambda>c. well_formed (kind (method_call (ascii ''logger'') (ascii ''info'') c)))
         [7, 5]
   \<and> kind (method_call (ascii ''queryset'') (ascii ''order_by'') 2) = Call 3 [5] []
   \<and> kind (method_call (ascii ''queryset'') (ascii ''order_by'') 3)
       = Attribute 4 (ascii ''order_by'')
   \<and> ascii ''order_by'' \<in> set queryset_methods
   \<and> kind (method_call (ascii ''logger'') (ascii ''info'') 2) = Call 3 [5] []
   \<and> kind (method_call (ascii ''logger'') (ascii ''info'') 3) = Attribute 4 (ascii ''info'')
   \<and> kind (method_call (ascii ''logger'') (ascii ''info'') 4) = Name (ascii ''logger'')
   \<and> 7 \<notin> set [5::nat]
   \<and> visit_const (\<lambda>text. False) [] (method_call (ascii ''queryset'') (ascii ''order_by'')) 7
       = Some (Inr [])
   \<and> visit_const (\<lambda>text. False) [] (method_call (ascii ''logger'') (ascii ''info'')) 7
       = Some (Inr [])"
proof -
  let ?q = "method_call (ascii ''queryset'') (ascii ''order_by'')"
  let ?l = "method_call (ascii ''logger'') (ascii ''info'')"
  have kq: "kind (?q 7) = Const (PyStr zakaz)"
    and cq: "kind (?q 2) = Call 3 [5] []"
    and fq: "kind (?q 3) = Attribute 4 (ascii ''order_by'')"
    and kl: "kind (?l 7) = Const (PyStr zakaz)"
    and cl: "kind (?l 2) = Call 3 [5] []"
    and fl: "kind (?l 3) = Attribute 4 (ascii ''info'')"
    and el: "kind (?l 4) = Name (ascii ''logger'')"
    by (simp_all add: method_call_def tree_of_def)
  have pq: "path_to_root ?q 7 ([7, 5] @ 2 # [1])"
    and pl: "path_to_root ?l 7 ([7, 5] @ 2 # [1])"
    by (simp_all add: path_to_root_Nil path_to_root_Cons method_call_def tree_of_def)
  have wq: "\<forall>c \<in> set [7, 5]. well_formed (kind (?q c))"
    and wl: "\<forall>c \<in> set [7, 5]. well_formed (kind (?l c))"
    by (simp_all add: method_call_def tree_of_def)
  have aq: "ascii ''order_by'' \<in> set queryset_methods"
    by (simp add: queryset_methods_def)
  then have dq: "ascii ''order_by'' \<in> set queryset_methods
         \<or> (\<exists>n. kind (?q 4) = Name n
                 \<and> n \<in> set [ascii ''logging'', ascii ''logger'', ascii ''console_logger''])"
    by blast
  have dl: "ascii ''info'' \<in> set queryset_methods
         \<or> (\<exists>n. kind (?l 4) = Name n
                 \<and> n \<in> set [ascii ''logging'', ascii ''logger'', ascii ''console_logger''])"
    using el by simp
  note q = queryset_or_logging_call_exempt
    [where t = ?q and all_names = "[]",
     OF kq zakaz_cyrillic zakaz_not_whitelisted pq wq cq fq dq]
  note l = queryset_or_logging_call_exempt
    [where t = ?l and all_names = "[]",
     OF kl zakaz_cyrillic zakaz_not_whitelisted pl wl cl fl dl]
  from q l kq cq fq kl cl fl el pq pl wq wl aq zakaz_cyrillic zakaz_not_whitelisted
  show ?thesis by (simp add: list_all_iff)
qed

end
